theory Spec2Isabelle
  imports Complex_Main "HOL-Library.Word" "HOL-Library.Sublist" "HOL-Library.Multiset"
    "HOL-Library.Log_Nat"
begin

section \<open>The scoring engine of lib/scoring.ts\<close>

subsection \<open>Numbers\<close>

text \<open>
  A TypeScript \<open>number\<close> is an IEEE-754 double. The model has the special values of the
  format: the two infinities, \<open>NaN\<close> and the negative zero (\<open>Num 0\<close> is the positive
  one). A finite value other than zero is the real number it denotes. A finite result of
  an operation is kept as it is, without rounding, while its magnitude is below
  \<open>2\<^sup>1\<^sup>0\<^sup>2\<^sup>4 - 2\<^sup>9\<^sup>7\<^sup>0\<close>, the least magnitude that rounds to an infinity; from there
  on the result overflows to the infinity of its sign. Underflow to zero is a matter of
  rounding and is left out with it.
  The operations are the ones \<open>lib/scoring.ts\<close> uses, with the special cases of the
  language: \<open>x / 0\<close> is an infinity of the sign of \<open>x\<close> and of the zero, \<open>0 / 0\<close>,
  \<open>Infinity - Infinity\<close> and \<open>0 * Infinity\<close> are \<open>NaN\<close>, \<open>Math.max\<close> and \<open>Math.min\<close>
  return \<open>NaN\<close> as soon as one argument is \<open>NaN\<close> and take \<open>-0\<close> for less than \<open>+0\<close>.
\<close>

datatype number = Num real | NegZero | PosInfinity | NegInfinity | NaN

definition overflow_limit :: real where
  "overflow_limit = 2 ^ 1024 - 2 ^ 970"

text \<open>The sign bit, and the classes of a number.\<close>

fun negative :: "number \<Rightarrow> bool" where
  "negative (Num x) = (x < 0)"
| "negative NegZero = True"
| "negative PosInfinity = False"
| "negative NegInfinity = True"
| "negative NaN = False"

fun is_zero :: "number \<Rightarrow> bool" where
  "is_zero (Num x) = (x = 0)"
| "is_zero NegZero = True"
| "is_zero PosInfinity = False"
| "is_zero NegInfinity = False"
| "is_zero NaN = False"

fun is_infinite :: "number \<Rightarrow> bool" where
  "is_infinite (Num x) = False"
| "is_infinite NegZero = False"
| "is_infinite PosInfinity = True"
| "is_infinite NegInfinity = True"
| "is_infinite NaN = False"

text \<open>The real value of a finite number.\<close>

fun real_of :: "number \<Rightarrow> real" where
  "real_of (Num x) = x"
| "real_of NegZero = 0"
| "real_of PosInfinity = 0"
| "real_of NegInfinity = 0"
| "real_of NaN = 0"

definition signed_zero :: "bool \<Rightarrow> number" where
  "signed_zero neg = (if neg then NegZero else Num 0)"

definition signed_infinity :: "bool \<Rightarrow> number" where
  "signed_infinity neg = (if neg then NegInfinity else PosInfinity)"

text \<open>The number for the exact result \<open>x\<close> of an operation on finite numbers.\<close>

definition overflow :: "real \<Rightarrow> number" where
  "overflow x = (if \<bar>x\<bar> < overflow_limit then Num x else signed_infinity (x < 0))"

fun uminus_num :: "number \<Rightarrow> number" where
  "uminus_num (Num x) = (if x = 0 then NegZero else Num (- x))"
| "uminus_num NegZero = Num 0"
| "uminus_num PosInfinity = NegInfinity"
| "uminus_num NegInfinity = PosInfinity"
| "uminus_num NaN = NaN"

text \<open>
  A sum of two zeros is \<open>-0\<close> only when both are; a sum of finite numbers that is zero
  is \<open>+0\<close>.
\<close>

fun plus_num :: "number \<Rightarrow> number \<Rightarrow> number" where
  "plus_num NaN b = NaN"
| "plus_num a NaN = NaN"
| "plus_num PosInfinity NegInfinity = NaN"
| "plus_num NegInfinity PosInfinity = NaN"
| "plus_num PosInfinity b = PosInfinity"
| "plus_num NegInfinity b = NegInfinity"
| "plus_num a PosInfinity = PosInfinity"
| "plus_num a NegInfinity = NegInfinity"
| "plus_num NegZero b = b"
| "plus_num a NegZero = a"
| "plus_num (Num x) (Num y) = overflow (x + y)"

definition minus_num :: "number \<Rightarrow> number \<Rightarrow> number" where
  "minus_num a b = plus_num a (uminus_num b)"

text \<open>The sign of a product or quotient is the exclusive or of the signs.\<close>

definition times_num :: "number \<Rightarrow> number \<Rightarrow> number" where
  "times_num a b =
     (if a = NaN \<or> b = NaN then NaN
      else if (is_zero a \<and> is_infinite b) \<or> (is_infinite a \<and> is_zero b) then NaN
      else if is_infinite a \<or> is_infinite b then signed_infinity (negative a \<noteq> negative b)
      else if is_zero a \<or> is_zero b then signed_zero (negative a \<noteq> negative b)
      else overflow (real_of a * real_of b))"

definition divide_num :: "number \<Rightarrow> number \<Rightarrow> number" where
  "divide_num a b =
     (if a = NaN \<or> b = NaN then NaN
      else if (is_zero a \<and> is_zero b) \<or> (is_infinite a \<and> is_infinite b) then NaN
      else if is_infinite a \<or> is_zero b then signed_infinity (negative a \<noteq> negative b)
      else if is_zero a \<or> is_infinite b then signed_zero (negative a \<noteq> negative b)
      else overflow (real_of a / real_of b))"

fun exp_num :: "number \<Rightarrow> number" where
  "exp_num (Num x) = overflow (exp x)"
| "exp_num NegZero = Num 1"
| "exp_num PosInfinity = PosInfinity"
| "exp_num NegInfinity = Num 0"
| "exp_num NaN = NaN"

text \<open>The comparison \<open>a <= b\<close> of the language: false on \<open>NaN\<close>, the two zeros equal.\<close>

definition less_eq_num :: "number \<Rightarrow> number \<Rightarrow> bool" where
  "less_eq_num a b =
     (if a = NaN \<or> b = NaN then False
      else if a = NegInfinity \<or> b = PosInfinity then True
      else if a = PosInfinity \<or> b = NegInfinity then False
      else real_of a \<le> real_of b)"

definition max_num :: "number \<Rightarrow> number \<Rightarrow> number" where
  "max_num a b =
     (if a = NaN \<or> b = NaN then NaN
      else if less_eq_num a b \<and> \<not> (a = Num 0 \<and> b = NegZero) then b else a)"

definition min_num :: "number \<Rightarrow> number \<Rightarrow> number" where
  "min_num a b =
     (if a = NaN \<or> b = NaN then NaN
      else if less_eq_num a b \<and> \<not> (a = Num 0 \<and> b = NegZero) then a else b)"

subsection \<open>Configuration\<close>

record ScoreConfig =
  lambda :: number
  scale :: number
  emaAlpha :: number

definition DEFAULT_CONFIG :: ScoreConfig where
  "DEFAULT_CONFIG = \<lparr>lambda = Num (18 / 10), scale = Num 6, emaAlpha = Num (3 / 10)\<rparr>"

subsection \<open>Math core\<close>

text \<open>\<open>clamp(n, min = 0, max = 100)\<close>: the two bounds are optional arguments.\<close>

definition clamp_between :: "number \<Rightarrow> number \<Rightarrow> number \<Rightarrow> number" where
  "clamp_between n lo hi = max_num lo (min_num hi n)"

definition clamp :: "number \<Rightarrow> number" where
  "clamp n = clamp_between n (Num 0) (Num 100)"

definition sigmoid :: "number \<Rightarrow> number" where
  "sigmoid z = divide_num (Num 1) (plus_num (Num 1) (exp_num (uminus_num z)))"

record DayResult =
  positiveSum :: number
  negativeSum :: number
  rawScore :: number

text \<open>
  \<open>values.reduce((acc, v) => acc + Math.max(0, v), 0)\<close> is a left fold from \<open>0\<close>.
\<close>

definition scoreDayFromValues :: "number list \<Rightarrow> ScoreConfig \<Rightarrow> DayResult" where
  "scoreDayFromValues values config =
     (let p = foldl (\<lambda>acc v. plus_num acc (max_num (Num 0) v)) (Num 0) values;
          n = foldl (\<lambda>acc v. plus_num acc (max_num (Num 0) (uminus_num v))) (Num 0) values;
          z = divide_num (minus_num p (times_num (lambda config) n)) (scale config);
          raw = times_num (Num 100) (sigmoid z)
      in \<lparr>positiveSum = p, negativeSum = n, rawScore = clamp raw\<rparr>)"

text \<open>
  \<open>emaScore\<close>: \<open>yesterdaySmoothed == null\<close> holds for \<open>null\<close> and \<open>undefined\<close>, both
  \<open>None\<close> here.
\<close>

definition emaScore :: "number \<Rightarrow> number option \<Rightarrow> ScoreConfig \<Rightarrow> number" where
  "emaScore todayRaw yesterdaySmoothed config =
     (case yesterdaySmoothed of
        None \<Rightarrow> clamp todayRaw
      | Some y \<Rightarrow>
          (let a = emaAlpha config
           in clamp (plus_num (times_num a todayRaw) (times_num (minus_num (Num 1) a) y))))"

subsection \<open>Strings\<close>

text \<open>
  A JavaScript string is a sequence of UTF-16 code units. \<open>trim\<close> removes the white
  space and line terminators of the language from both ends. \<open>toLowerCase\<close> maps
  \<open>A\<close>..\<open>Z\<close> to \<open>a\<close>..\<open>z\<close> on a string of ASCII code units; on any other string it
  follows the Unicode case tables of the host, which are no part of this repository and
  are taken as the parameter \<open>unicodeLower\<close>.
\<close>

type_synonym code_unit = "16 word"
type_synonym js_string = "code_unit list"

definition js :: "string \<Rightarrow> js_string" where
  "js s = map of_char s"

definition isWhiteSpace :: "code_unit \<Rightarrow> bool" where
  "isWhiteSpace c =
     (c \<in> set [0x9, 0xA, 0xB, 0xC, 0xD, 0x20, 0xA0, 0x1680, 0x2028, 0x2029, 0x202F, 0x205F,
                0x3000, 0xFEFF]
      \<or> (0x2000 \<le> c \<and> c \<le> 0x200A))"

definition trim :: "js_string \<Rightarrow> js_string" where
  "trim s = rev (dropWhile isWhiteSpace (rev (dropWhile isWhiteSpace s)))"

definition asciiLower :: "code_unit \<Rightarrow> code_unit" where
  "asciiLower c = (if 0x41 \<le> c \<and> c \<le> 0x5A then c + 0x20 else c)"

definition toLowerCase :: "(js_string \<Rightarrow> js_string) \<Rightarrow> js_string \<Rightarrow> js_string" where
  "toLowerCase unicodeLower s =
     (if list_all (\<lambda>c. c < 0x80) s then map asciiLower s else unicodeLower s)"

text \<open>\<open>t.includes(w)\<close>: \<open>w\<close> occurs in \<open>t\<close> as a contiguous run of code units.\<close>

fun includes_str :: "js_string \<Rightarrow> js_string \<Rightarrow> bool" where
  "includes_str [] w = (w = [])"
| "includes_str (c # cs) w = (prefix w (c # cs) \<or> includes_str cs w)"

subsection \<open>Minimal local scoring\<close>

datatype EntryCategory =
  Physical | Social | Focus | EmotionRegulation | Avoidance | Impulse | Sleep | Other

text \<open>\<open>hit(words)\<close> is \<open>words.some((w) => t.includes(w))\<close>.\<close>

definition hit :: "js_string \<Rightarrow> string list \<Rightarrow> bool" where
  "hit t words = list_ex (\<lambda>w. includes_str t (js w)) words"

definition scoreEntryLocal ::
  "(js_string \<Rightarrow> js_string) \<Rightarrow> js_string \<Rightarrow> EntryCategory \<times> number" where
  "scoreEntryLocal unicodeLower text =
     (let t = toLowerCase unicodeLower (trim text) in
      if hit t [''walk'', ''run'', ''gym'', ''workout'', ''yoga'', ''stretch'', ''exercise'']
        then (Physical, Num 4)
      else if hit t [''cook'', ''healthy'', ''salad'', ''water'', ''hydrated'']
        then (Physical, Num 2)
      else if hit t [''called'', ''meet'', ''met'', ''friend'', ''family'', ''talked'']
        then (Social, Num 3)
      else if hit t [''focused'', ''deep work'', ''finish'', ''completed'', ''shipped'']
        then (Focus, Num 4)
      else if hit t [''journal'', ''meditate'', ''meditation'', ''breath'', ''therapy'']
        then (EmotionRegulation, Num 3)
      else if hit t [''slept early'', ''sleep early'', ''8 hours'', ''good sleep'']
        then (Sleep, Num 4)
      else if hit t [''doomscroll'', ''scrolling'', ''tiktok'', ''instagram for hours'']
        then (Avoidance, Num (- 3))
      else if hit t [''stayed up'', ''3am'', ''4am'', ''no sleep'', ''insomnia'']
        then (Sleep, Num (- 4))
      else if hit t [''drank'', ''alcohol'', ''hangover'']
        then (Impulse, Num (- 3))
      else if hit t [''argued'', ''fight'', ''shouted'', ''rage'']
        then (Impulse, Num (- 4))
      else if hit t [''avoided'', ''procrastinated'', ''skipped'']
        then (Avoidance, Num (- 2))
      else (Other, Num 0))"

subsection \<open>Entries and the two pages\<close>

text \<open>
  An \<open>Entry\<close> comes out of \<open>JSON.parse\<close>: \<open>category\<close> may be missing, and \<open>value\<close>
  is \<open>None\<close> when it is missing or no number (\<open>typeof e.value === "number"\<close> fails).
\<close>

record Entry =
  entry_id :: js_string
  entry_text :: js_string
  createdAt :: js_string
  entry_category :: "EntryCategory option"
  entry_value :: "number option"

record ScoredEntry =
  scored_id :: js_string
  scored_text :: js_string
  scored_createdAt :: js_string
  scored_category :: EntryCategory
  scored_value :: number

text \<open>
  The classifier has no effect of its own; to speak about whether it is called, every
  call appends its argument to a trace that the callers pass along.
\<close>

type_synonym trace = "js_string list"

definition scoreEntryLocal_call ::
  "(js_string \<Rightarrow> js_string) \<Rightarrow> js_string \<Rightarrow> trace \<Rightarrow> (EntryCategory \<times> number) \<times> trace" where
  "scoreEntryLocal_call unicodeLower text tr = (scoreEntryLocal unicodeLower text, tr @ [text])"

text \<open>
  The callback of \<open>todayEntries.map\<close> (home page) and of \<open>.map\<close> in \<open>days\<close> (report
  page); the two are the same code.
\<close>

definition toScoredEntry ::
  "(js_string \<Rightarrow> js_string) \<Rightarrow> Entry \<Rightarrow> trace \<Rightarrow> ScoredEntry \<times> trace" where
  "toScoredEntry unicodeLower e tr =
     (let (scored, tr') = scoreEntryLocal_call unicodeLower (entry_text e) tr
      in (\<lparr>scored_id = entry_id e, scored_text = entry_text e, scored_createdAt = createdAt e,
           scored_category = (case entry_category e of Some c \<Rightarrow> c | None \<Rightarrow> fst scored),
           scored_value = (case entry_value e of Some v \<Rightarrow> v | None \<Rightarrow> snd scored)\<rparr>,
          tr'))"

fun map_toScoredEntry ::
  "(js_string \<Rightarrow> js_string) \<Rightarrow> Entry list \<Rightarrow> trace \<Rightarrow> ScoredEntry list \<times> trace" where
  "map_toScoredEntry unicodeLower [] tr = ([], tr)"
| "map_toScoredEntry unicodeLower (e # es) tr =
     (let (se, tr1) = toScoredEntry unicodeLower e tr;
          (ses, tr2) = map_toScoredEntry unicodeLower es tr1
      in (se # ses, tr2))"

text \<open>
  \<open>toLocalDateKey\<close> reads the clock's time zone and is a parameter, as is the key of
  today and the list of the last seven keys.
\<close>

definition todayEntries :: "(js_string \<Rightarrow> js_string) \<Rightarrow> js_string \<Rightarrow> Entry list \<Rightarrow> Entry list" where
  "todayEntries toLocalDateKey todayKey entries =
     filter (\<lambda>e. toLocalDateKey (createdAt e) = todayKey) entries"

definition scoredToday ::
  "(js_string \<Rightarrow> js_string) \<Rightarrow> Entry list \<Rightarrow> trace \<Rightarrow> ScoredEntry list \<times> trace" where
  "scoredToday unicodeLower today tr = map_toScoredEntry unicodeLower today tr"

definition todayScore :: "ScoredEntry list \<Rightarrow> DayResult" where
  "todayScore scored = scoreDayFromValues (map scored_value scored) DEFAULT_CONFIG"

record DayScore = DayResult +
  dateKey :: js_string
  entries :: "ScoredEntry list"
  smoothedScore :: number

text \<open>
  \<open>days\<close> of the report page: \<open>keys.map\<close> with the variable \<open>prevSmoothed\<close>, which
  starts as \<open>null\<close> and holds the smoothed score of the day before.
\<close>

fun days_from ::
  "(js_string \<Rightarrow> js_string) \<Rightarrow> (js_string \<Rightarrow> js_string) \<Rightarrow> Entry list \<Rightarrow> js_string list \<Rightarrow>
   number option \<Rightarrow> trace \<Rightarrow> DayScore list \<times> trace" where
  "days_from unicodeLower toLocalDateKey es [] prevSmoothed tr = ([], tr)"
| "days_from unicodeLower toLocalDateKey es (k # keys) prevSmoothed tr =
     (let (dayEntries, tr1) =
            map_toScoredEntry unicodeLower (filter (\<lambda>e. toLocalDateKey (createdAt e) = k) es) tr;
          base = scoreDayFromValues (map scored_value dayEntries) DEFAULT_CONFIG;
          smoothed = emaScore (rawScore base) prevSmoothed DEFAULT_CONFIG;
          (rest, tr2) = days_from unicodeLower toLocalDateKey es keys (Some smoothed) tr1
      in (\<lparr>positiveSum = positiveSum base, negativeSum = negativeSum base,
           rawScore = rawScore base, dateKey = k, entries = dayEntries,
           smoothedScore = smoothed\<rparr> # rest, tr2))"

definition days ::
  "(js_string \<Rightarrow> js_string) \<Rightarrow> (js_string \<Rightarrow> js_string) \<Rightarrow> js_string list \<Rightarrow> Entry list \<Rightarrow>
   DayScore list \<times> trace" where
  "days unicodeLower toLocalDateKey keys es =
     days_from unicodeLower toLocalDateKey es keys None []"

text \<open>
  The smoothing of \<open>days\<close> on its own: \<open>emaScore\<close> called once per raw score, in order,
  each call given the result of the call before.
\<close>

fun emaScores :: "ScoreConfig \<Rightarrow> number option \<Rightarrow> number list \<Rightarrow> number list" where
  "emaScores config prevSmoothed [] = []"
| "emaScores config prevSmoothed (r # rs) =
     (let smoothed = emaScore r prevSmoothed config
      in smoothed # emaScores config (Some smoothed) rs)"

subsection \<open>The documented contracts, as stated\<close>

text \<open>
  The classifier as the documentation describes it: an ordered table of keyword groups,
  each with its category and value, and the result of the first group that has a
  keyword in the normalized text, \<open>(Other, 0)\<close> when there is none.
\<close>

definition keyword_rules :: "(string list \<times> EntryCategory \<times> number) list" where
  "keyword_rules =
     [([''walk'', ''run'', ''gym'', ''workout'', ''yoga'', ''stretch'', ''exercise''], Physical, Num 4),
      ([''cook'', ''healthy'', ''salad'', ''water'', ''hydrated''], Physical, Num 2),
      ([''called'', ''meet'', ''met'', ''friend'', ''family'', ''talked''], Social, Num 3),
      ([''focused'', ''deep work'', ''finish'', ''completed'', ''shipped''], Focus, Num 4),
      ([''journal'', ''meditate'', ''meditation'', ''breath'', ''therapy''], EmotionRegulation, Num 3),
      ([''slept early'', ''sleep early'', ''8 hours'', ''good sleep''], Sleep, Num 4),
      ([''doomscroll'', ''scrolling'', ''tiktok'', ''instagram for hours''], Avoidance, Num (- 3)),
      ([''stayed up'', ''3am'', ''4am'', ''no sleep'', ''insomnia''], Sleep, Num (- 4)),
      ([''drank'', ''alcohol'', ''hangover''], Impulse, Num (- 3)),
      ([''argued'', ''fight'', ''shouted'', ''rage''], Impulse, Num (- 4)),
      ([''avoided'', ''procrastinated'', ''skipped''], Avoidance, Num (- 2))]"

fun first_matching_rule ::
  "js_string \<Rightarrow> (string list \<times> EntryCategory \<times> number) list \<Rightarrow> EntryCategory \<times> number" where
  "first_matching_rule t [] = (Other, Num 0)"
| "first_matching_rule t ((words, result) # rules) =
     (if list_ex (\<lambda>w. includes_str t (js w)) words then result
      else first_matching_rule t rules)"

text \<open>
  The recurrence of the trend smoother over real numbers, day \<open>t\<close> counted from \<open>0\<close>:
  \<open>S\<^sub>0 = clamp r\<^sub>0\<close> and \<open>S\<^sub>t = clamp (\<alpha> r\<^sub>t + (1 - \<alpha>) S\<^sub>t\<^sub>-\<^sub>1)\<close>, with \<open>clamp\<close> to
  \<open>[0, 100]\<close>.
\<close>

fun ema_recurrence :: "real \<Rightarrow> real list \<Rightarrow> nat \<Rightarrow> real" where
  "ema_recurrence \<alpha> rs 0 = max 0 (min 100 (rs ! 0))"
| "ema_recurrence \<alpha> rs (Suc t) =
     max 0 (min 100 (\<alpha> * rs ! Suc t + (1 - \<alpha>) * ema_recurrence \<alpha> rs t))"

subsection \<open>The two sums with rounded addition\<close>

text \<open>
  The sums of \<open>scoreDayFromValues\<close> once more, now with the rounding of every addition
  written out. A finite double is the rational number it denotes; \<open>binary64\<close> rounds a
  rational to the nearest double, ties to the even significand (53 bits, least exponent
  \<open>-1074\<close>; results below \<open>2\<^sup>1\<^sup>0\<^sup>2\<^sup>4\<close> in magnitude, so that no sum overflows).
\<close>

definition pow2 :: "int \<Rightarrow> rat" where
  "pow2 e = (if 0 \<le> e then 2 ^ nat e else 1 / 2 ^ nat (- e))"

text \<open>\<open>ilog2 x\<close> is the integer part of the binary logarithm of a positive \<open>x\<close>.\<close>

definition ilog2 :: "rat \<Rightarrow> int" where
  "ilog2 x = (let (a, b) = quotient_of x; k = bitlen a - bitlen b
              in if pow2 k \<le> x then k else k - 1)"

definition round_ties_even :: "rat \<Rightarrow> int" where
  "round_ties_even x =
     (let f = \<lfloor>x\<rfloor>; d = x - of_int f
      in if d < 1 / 2 then f else if 1 / 2 < d then f + 1 else if even f then f else f + 1)"

definition binary64 :: "rat \<Rightarrow> rat" where
  "binary64 x =
     (if x = 0 then 0
      else let e = max (ilog2 \<bar>x\<bar> - 52) (- 1074)
           in of_int (round_ties_even (x / pow2 e)) * pow2 e)"

definition plus_binary64 :: "rat \<Rightarrow> rat \<Rightarrow> rat" where
  "plus_binary64 x y = binary64 (x + y)"

definition positiveSum_binary64 :: "rat list \<Rightarrow> rat" where
  "positiveSum_binary64 values = foldl (\<lambda>acc v. plus_binary64 acc (max 0 v)) 0 values"

definition negativeSum_binary64 :: "rat list \<Rightarrow> rat" where
  "negativeSum_binary64 values = foldl (\<lambda>acc v. plus_binary64 acc (max 0 (- v))) 0 values"

section \<open>Properties\<close>

subsection \<open>Arithmetic on finite numbers\<close>

lemma overflow_limit_gt_million: "1000000 < overflow_limit"
  by (simp add: overflow_limit_def)



lemma overflow_limit_pos: "0 < overflow_limit"
  using overflow_limit_gt_million by linarith

lemma overflow_Num: "\<bar>x\<bar> < overflow_limit \<Longrightarrow> overflow x = Num x"
  by (simp add: overflow_def)

lemma overflow_small: "\<bar>x\<bar> \<le> 1000000 \<Longrightarrow> overflow x = Num x"
  using overflow_limit_gt_million by (intro overflow_Num) linarith

lemma overflow_PosInfinity: "overflow_limit \<le> x \<Longrightarrow> overflow x = PosInfinity"
  using overflow_limit_pos by (simp add: overflow_def signed_infinity_def)

lemma overflow_NegInfinity: "x \<le> - overflow_limit \<Longrightarrow> overflow x = NegInfinity"
  using overflow_limit_pos by (simp add: overflow_def signed_infinity_def)



lemma less_eq_num_Num [simp]: "less_eq_num (Num x) (Num y) \<longleftrightarrow> x \<le> y"
  by (simp add: less_eq_num_def)

lemma times_Num_Num:
  "times_num (Num x) (Num y) =
     (if x = 0 \<or> y = 0 then signed_zero ((x < 0) \<noteq> (y < 0)) else overflow (x * y))"
  by (auto simp: times_num_def)

lemma divide_Num_Num:
  "divide_num (Num x) (Num y) =
     (if y = 0 then (if x = 0 then NaN else signed_infinity (x < 0))
      else if x = 0 then signed_zero (y < 0)
      else overflow (x / y))"
  by (auto simp: divide_num_def)

lemma minus_Num_Num:
  "minus_num (Num x) (Num y) = (if y = 0 then Num x else overflow (x - y))"
  by (simp add: minus_num_def)

lemma max_Num_Num: "max_num (Num x) (Num y) = Num (max x y)"
  by (auto simp: max_num_def max_def)

lemma min_Num_Num: "min_num (Num x) (Num y) = Num (min x y)"
  by (auto simp: min_num_def min_def)

lemma clamp_Num: "clamp (Num x) = Num (max 0 (min 100 x))"
  by (simp add: clamp_def clamp_between_def min_Num_Num max_Num_Num)

lemma clamp_special:
  shows "clamp NegZero = Num 0" and "clamp PosInfinity = Num 100"
    and "clamp NegInfinity = Num 0" and "clamp NaN = NaN"
  by (simp_all add: clamp_def clamp_between_def max_num_def min_num_def less_eq_num_def)

lemma max_zero_Num: "max_num (Num 0) (Num v) = Num (max 0 v)"
  by (rule max_Num_Num)

lemma max_zero_uminus_Num: "max_num (Num 0) (uminus_num (Num v)) = Num (max 0 (- v))"
  by (simp add: max_num_def less_eq_num_def max_def)

lemma sum_max_nonneg: "0 \<le> (\<Sum>v\<leftarrow>vs. max 0 (f v :: real))"
  by (induction vs) simp_all

lemma foldl_positive_PosInfinity:
  "foldl (\<lambda>acc v. plus_num acc (max_num (Num 0) v)) PosInfinity (map Num vs) = PosInfinity"
  by (induction vs) (simp_all add: max_zero_Num)

lemma foldl_negative_PosInfinity:
  "foldl (\<lambda>acc v. plus_num acc (max_num (Num 0) (uminus_num v))) PosInfinity (map Num vs)
     = PosInfinity"
  by (induction vs) (simp_all add: max_zero_uminus_Num del: uminus_num.simps)

lemma foldl_positive_Num:
  "0 \<le> a \<Longrightarrow> a < overflow_limit \<Longrightarrow>
   foldl (\<lambda>acc v. plus_num acc (max_num (Num 0) v)) (Num a) (map Num vs)
     = overflow (a + (\<Sum>v\<leftarrow>vs. max 0 v))"
proof (induction vs arbitrary: a)
  case Nil
  then show ?case by (simp add: overflow_Num)
next
  case (Cons v vs)
  have rest: "0 \<le> (\<Sum>v\<leftarrow>vs. max 0 v)" using sum_max_nonneg [of "\<lambda>v. v" vs] by simp
  have a': "0 \<le> a + max 0 v" using Cons.prems by simp
  show ?case
  proof (cases "a + max 0 v < overflow_limit")
    case True
    then have "overflow (a + max 0 v) = Num (a + max 0 v)" using a' by (simp add: overflow_Num)
    then show ?thesis using Cons.IH [OF a' True] by (simp add: max_zero_Num add.assoc)
  next
    case False
    then have "overflow (a + max 0 v) = PosInfinity" by (simp add: overflow_PosInfinity)
    moreover have "overflow (a + (max 0 v + (\<Sum>v\<leftarrow>vs. max 0 v))) = PosInfinity"
      using False rest by (intro overflow_PosInfinity) linarith
    ultimately show ?thesis by (simp add: max_zero_Num foldl_positive_PosInfinity)
  qed
qed

lemma foldl_negative_Num:
  "0 \<le> a \<Longrightarrow> a < overflow_limit \<Longrightarrow>
   foldl (\<lambda>acc v. plus_num acc (max_num (Num 0) (uminus_num v))) (Num a) (map Num vs)
     = overflow (a + (\<Sum>v\<leftarrow>vs. max 0 (- v)))"
proof (induction vs arbitrary: a)
  case Nil
  then show ?case by (simp add: overflow_Num)
next
  case (Cons v vs)
  have rest: "0 \<le> (\<Sum>v\<leftarrow>vs. max 0 (- v))" by (rule sum_max_nonneg)
  have a': "0 \<le> a + max 0 (- v)" using Cons.prems by simp
  show ?case
  proof (cases "a + max 0 (- v) < overflow_limit")
    case True
    then have "overflow (a + max 0 (- v)) = Num (a + max 0 (- v))"
      using a' by (simp add: overflow_Num)
    then show ?thesis using Cons.IH [OF a' True]
      by (simp add: max_zero_uminus_Num add.assoc del: uminus_num.simps)
  next
    case False
    then have "overflow (a + max 0 (- v)) = PosInfinity" by (simp add: overflow_PosInfinity)
    moreover have "overflow (a + (max 0 (- v) + (\<Sum>v\<leftarrow>vs. max 0 (- v)))) = PosInfinity"
      using False rest by (intro overflow_PosInfinity) linarith
    ultimately show ?thesis
      by (simp add: max_zero_uminus_Num foldl_negative_PosInfinity del: uminus_num.simps)
  qed
qed

lemma positiveSum_overflow:
  "positiveSum (scoreDayFromValues (map Num vs) config) = overflow (\<Sum>v\<leftarrow>vs. max 0 v)"
  using foldl_positive_Num [of 0 vs] overflow_limit_pos
  by (simp add: scoreDayFromValues_def Let_def)

lemma negativeSum_overflow:
  "negativeSum (scoreDayFromValues (map Num vs) config) = overflow (\<Sum>v\<leftarrow>vs. max 0 (- v))"
  using foldl_negative_Num [of 0 vs] overflow_limit_pos
  by (simp add: scoreDayFromValues_def Let_def)

lemma rawScore_unfold:
  "rawScore (scoreDayFromValues values config) =
     clamp (times_num (Num 100) (sigmoid (divide_num
       (minus_num (positiveSum (scoreDayFromValues values config))
          (times_num (lambda config) (negativeSum (scoreDayFromValues values config))))
       (scale config))))"
  by (simp add: scoreDayFromValues_def Let_def)


lemma sigmoid_special:
  shows "sigmoid NegZero = Num (1 / 2)" and "sigmoid PosInfinity = Num 1"
    and "sigmoid NegInfinity = Num 0" and "sigmoid NaN = NaN"
  by (simp_all add: sigmoid_def overflow_small divide_Num_Num divide_num_def signed_zero_def)


lemma times_100_unit: "0 \<le> r \<Longrightarrow> r \<le> 1 \<Longrightarrow> times_num (Num 100) (Num r) = Num (100 * r)"
  by (auto simp: times_Num_Num signed_zero_def intro!: overflow_small)







lemma sum_max_le_abs:
  shows "(\<Sum>v\<leftarrow>vs. max 0 v) \<le> (\<Sum>v\<leftarrow>vs. \<bar>v :: real\<bar>)"
    and "(\<Sum>v\<leftarrow>vs. max 0 (- v)) \<le> (\<Sum>v\<leftarrow>vs. \<bar>v :: real\<bar>)"
  by (induction vs) auto

lemma sums_finite:
  assumes "(\<Sum>v\<leftarrow>vs. \<bar>v\<bar>) < overflow_limit"
  shows "positiveSum (scoreDayFromValues (map Num vs) config) = Num (\<Sum>v\<leftarrow>vs. max 0 v)"
    and "negativeSum (scoreDayFromValues (map Num vs) config) = Num (\<Sum>v\<leftarrow>vs. max 0 (- v))"
proof -
  have "\<bar>\<Sum>v\<leftarrow>vs. max 0 v\<bar> < overflow_limit"
    using assms sum_max_le_abs(1) [of vs] sum_max_nonneg [of "\<lambda>v. v" vs] by simp
  then show "positiveSum (scoreDayFromValues (map Num vs) config) = Num (\<Sum>v\<leftarrow>vs. max 0 v)"
    by (simp add: positiveSum_overflow overflow_Num)
  have "\<bar>\<Sum>v\<leftarrow>vs. max 0 (- v)\<bar> < overflow_limit"
    using assms sum_max_le_abs(2) [of vs] sum_max_nonneg [of "\<lambda>v. - v" vs] by simp
  then show "negativeSum (scoreDayFromValues (map Num vs) config) = Num (\<Sum>v\<leftarrow>vs. max 0 (- v))"
    by (simp add: negativeSum_overflow overflow_Num)
qed




lemma overflow_zero: "overflow 0 = Num 0"
  by (simp add: overflow_small)

lemma times_100_special:
  shows "times_num (Num 100) NaN = NaN"
  by (simp add: times_num_def)

subsection \<open>Day aggregator: the sums and the sigmoid\<close>





subsection \<open>Day aggregator: range of the raw score\<close>








subsection \<open>Day aggregator: monotonicity\<close>
















subsection \<open>Configuration with a zero scale\<close>

lemma divide_by_zero_cases:
  assumes "b = Num 0 \<or> b = NegZero"
  shows "divide_num a b = NaN \<or> divide_num a b = PosInfinity \<or> divide_num a b = NegInfinity"
  using assms by (auto simp: divide_num_def signed_infinity_def)

lemma zero_minus_product:
  "minus_num (Num 0) (times_num a (Num 0)) = NaN
   \<or> is_zero (minus_num (Num 0) (times_num a (Num 0)))"
  by (cases a) (auto simp: times_num_def signed_zero_def minus_num_def overflow_zero)

lemma score_of_special:
  shows "clamp (times_num (Num 100) (sigmoid NaN)) = NaN"
    and "clamp (times_num (Num 100) (sigmoid PosInfinity)) = Num 100"
    and "clamp (times_num (Num 100) (sigmoid NegInfinity)) = Num 0"
  by (simp_all add: sigmoid_special times_100_special times_100_unit clamp_special clamp_Num)

lemma zero_scale_rawScore:
  assumes "scale config = Num 0 \<or> scale config = NegZero"
  shows "rawScore (scoreDayFromValues values config) \<in> {NaN, Num 0, Num 100}"
    and "rawScore (scoreDayFromValues [] config) = NaN"
proof -
  show "rawScore (scoreDayFromValues values config) \<in> {NaN, Num 0, Num 100}"
    unfolding rawScore_unfold
    using divide_by_zero_cases [OF assms] score_of_special by (metis insertCI)
  have "divide_num d (scale config) = NaN" if "d = NaN \<or> is_zero d" for d
    using that assms by (auto simp: divide_num_def)
  then have "divide_num (minus_num (Num 0) (times_num (lambda config) (Num 0))) (scale config)
      = NaN"
    using zero_minus_product by blast
  then show "rawScore (scoreDayFromValues [] config) = NaN"
    by (simp add: scoreDayFromValues_def Let_def score_of_special)
qed

lemma day_of_4:
  assumes "lambda config = Num (18 / 10)"
  shows "positiveSum (scoreDayFromValues [Num 4] config) = Num 4"
    and "negativeSum (scoreDayFromValues [Num 4] config) = Num 0"
    and "rawScore (scoreDayFromValues [Num 4] config)
          = clamp (times_num (Num 100) (sigmoid (divide_num (Num 4) (scale config))))"
proof -
  have v: "[Num 4] = map Num [4]" by simp
  show p: "positiveSum (scoreDayFromValues [Num 4] config) = Num 4"
    unfolding v positiveSum_overflow by (simp add: overflow_small)
  show n: "negativeSum (scoreDayFromValues [Num 4] config) = Num 0"
    unfolding v negativeSum_overflow by (simp add: overflow_small)
  show "rawScore (scoreDayFromValues [Num 4] config)
          = clamp (times_num (Num 100) (sigmoid (divide_num (Num 4) (scale config))))"
    unfolding rawScore_unfold p n assms
    by (simp add: times_Num_Num signed_zero_def minus_Num_Num)
qed

text \<open>
  C8, as stated, fails. \<open>ScoreConfig\<close> is a record of three numbers and nothing checks
  it: the configuration with \<open>scale = 0\<close> exists, \<open>scoreDayFromValues\<close> takes it, and
  the division by zero reaches the score as \<open>NaN\<close> on an empty day and as \<open>100\<close> on a
  day with the single value \<open>4\<close> (as \<open>0\<close> on that day when the scale is \<open>-0\<close>).
\<close>

theorem scale_zero_accepted:
  "scoreDayFromValues [] \<lparr>lambda = Num (18 / 10), scale = Num 0, emaAlpha = Num (3 / 10)\<rparr>
     = \<lparr>positiveSum = Num 0, negativeSum = Num 0, rawScore = NaN\<rparr>
   \<and> scoreDayFromValues [Num 4] \<lparr>lambda = Num (18 / 10), scale = Num 0, emaAlpha = Num (3 / 10)\<rparr>
     = \<lparr>positiveSum = Num 4, negativeSum = Num 0, rawScore = Num 100\<rparr>
   \<and> scoreDayFromValues [Num 4] \<lparr>lambda = Num (18 / 10), scale = NegZero, emaAlpha = Num (3 / 10)\<rparr>
     = \<lparr>positiveSum = Num 4, negativeSum = Num 0, rawScore = Num 0\<rparr>"
proof (intro conjI)
  show "scoreDayFromValues [] \<lparr>lambda = Num (18 / 10), scale = Num 0, emaAlpha = Num (3 / 10)\<rparr>
     = \<lparr>positiveSum = Num 0, negativeSum = Num 0, rawScore = NaN\<rparr>"
    by (rule DayResult.equality)
      (simp_all add: zero_scale_rawScore(2), simp_all add: scoreDayFromValues_def Let_def)
  show "scoreDayFromValues [Num 4] \<lparr>lambda = Num (18 / 10), scale = Num 0, emaAlpha = Num (3 / 10)\<rparr>
     = \<lparr>positiveSum = Num 4, negativeSum = Num 0, rawScore = Num 100\<rparr>"
    by (rule DayResult.equality)
      (simp_all add: day_of_4 divide_num_def signed_infinity_def score_of_special)
  show "scoreDayFromValues [Num 4] \<lparr>lambda = Num (18 / 10), scale = NegZero, emaAlpha = Num (3 / 10)\<rparr>
     = \<lparr>positiveSum = Num 4, negativeSum = Num 0, rawScore = Num 0\<rparr>"
    by (rule DayResult.equality)
      (simp_all add: day_of_4 divide_num_def signed_infinity_def score_of_special)
qed

text \<open>
  C8, amended. A configuration with \<open>scale = 0\<close>, of either sign, is not rejected:
  \<open>scoreDayFromValues\<close> takes it with any values and any \<open>lambda\<close>, and the division by
  zero reaches the score, which is \<open>NaN\<close> on an empty day and \<open>NaN\<close>, \<open>0\<close> or \<open>100\<close>
  on any day.
\<close>

theorem scale_zero_propagates:
  assumes "scale config = Num 0 \<or> scale config = NegZero"
  shows "rawScore (scoreDayFromValues values config) \<in> {NaN, Num 0, Num 100}
    \<and> rawScore (scoreDayFromValues [] config) = NaN"
  using zero_scale_rawScore [OF assms] by blast

theorem scale_zero_propagates_witness:
  "(scale (DEFAULT_CONFIG\<lparr>scale := NegZero\<rparr>) = Num 0
      \<or> scale (DEFAULT_CONFIG\<lparr>scale := NegZero\<rparr>) = NegZero)
   \<and> rawScore (scoreDayFromValues [Num 4] (DEFAULT_CONFIG\<lparr>scale := NegZero\<rparr>))
       \<in> {NaN, Num 0, Num 100}
   \<and> rawScore (scoreDayFromValues [] (DEFAULT_CONFIG\<lparr>scale := NegZero\<rparr>)) = NaN"
proof -
  have h: "scale (DEFAULT_CONFIG\<lparr>scale := NegZero\<rparr>) = Num 0
      \<or> scale (DEFAULT_CONFIG\<lparr>scale := NegZero\<rparr>) = NegZero" by simp
  from scale_zero_propagates [OF h, of "[Num 4]"] h show ?thesis by blast
qed

subsection \<open>Trend smoother: the seed\<close>

text \<open>
  C5. With no previous smoothed value, \<open>emaScore\<close> returns the clamped raw value, for
  every number \<open>r\<close> (also \<open>NaN\<close> and the infinities) and every configuration; for a
  finite \<open>x\<close> that is \<open>max 0 (min 100 x)\<close>.
\<close>

theorem emaScore_seed:
  "emaScore r None config = clamp r
   \<and> emaScore (Num x) None config = Num (max 0 (min 100 x))"
  by (simp add: emaScore_def clamp_Num)

subsection \<open>Trend smoother: the recurrence\<close>

lemma clamp_overflow: "clamp (overflow x) = Num (max 0 (min 100 x))"
proof -
  have L: "100 < overflow_limit" using overflow_limit_gt_million by linarith
  consider "\<bar>x\<bar> < overflow_limit" | "overflow_limit \<le> x" | "x \<le> - overflow_limit"
    by linarith
  then show ?thesis
  proof cases
    case 1
    then show ?thesis by (simp add: overflow_Num clamp_Num)
  next
    case 2
    then have "max 0 (min 100 x) = 100" using L by simp
    then show ?thesis using 2 by (simp add: overflow_PosInfinity clamp_special)
  next
    case 3
    then have "max 0 (min 100 x) = 0" using L by simp
    then show ?thesis using 3 by (simp add: overflow_NegInfinity clamp_special)
  qed
qed

lemma clamp_plus_overflow:
  assumes "0 \<le> b" and "b \<le> 100"
  shows "clamp (plus_num (overflow a) (Num b)) = Num (max 0 (min 100 (a + b)))"
proof -
  have L: "100 < overflow_limit" using overflow_limit_gt_million by linarith
  consider "\<bar>a\<bar> < overflow_limit" | "overflow_limit \<le> a" | "a \<le> - overflow_limit"
    by linarith
  then show ?thesis
  proof cases
    case 1
    then show ?thesis by (simp add: overflow_Num clamp_overflow)
  next
    case 2
    then have "max 0 (min 100 (a + b)) = 100" using L assms by simp
    then show ?thesis using 2 by (simp add: overflow_PosInfinity clamp_special)
  next
    case 3
    then have "max 0 (min 100 (a + b)) = 0" using L assms by simp
    then show ?thesis using 3 by (simp add: overflow_NegInfinity clamp_special)
  qed
qed

lemma emaScore_Num:
  assumes "emaAlpha config = Num \<alpha>" and "0 \<le> \<alpha>" and "\<alpha> \<le> 1"
    and "0 \<le> y" and "y \<le> 100"
  shows "emaScore (Num r) (Some (Num y)) config = Num (max 0 (min 100 (\<alpha> * r + (1 - \<alpha>) * y)))"
proof -
  have one: "minus_num (Num 1) (Num \<alpha>) = Num (1 - \<alpha>)"
    using assms(2,3) by (simp add: minus_Num_Num overflow_small)
  have b0: "0 \<le> (1 - \<alpha>) * y" using assms(3,4) by simp
  have b100: "(1 - \<alpha>) * y \<le> 100"
  proof -
    have "(1 - \<alpha>) * y \<le> 1 * 100" using assms(2,3,4,5) by (intro mult_mono) simp_all
    then show ?thesis by simp
  qed
  have B: "times_num (Num (1 - \<alpha>)) (Num y) = Num ((1 - \<alpha>) * y)"
    using b0 b100 assms(3,4)
    by (auto simp: times_Num_Num signed_zero_def intro!: overflow_small)
  have "clamp (plus_num (times_num (Num \<alpha>) (Num r)) (Num ((1 - \<alpha>) * y)))
      = Num (max 0 (min 100 (\<alpha> * r + (1 - \<alpha>) * y)))"
  proof (cases "\<alpha> = 0 \<or> r = 0")
    case True
    then have z: "\<alpha> * r = 0" by auto
    have "times_num (Num \<alpha>) (Num r) = Num 0 \<or> times_num (Num \<alpha>) (Num r) = NegZero"
      using True by (auto simp: times_Num_Num signed_zero_def)
    then show ?thesis
      using clamp_overflow [of "(1 - \<alpha>) * y"] by (auto simp: z clamp_Num)
  next
    case False
    then have "times_num (Num \<alpha>) (Num r) = overflow (\<alpha> * r)" by (simp add: times_Num_Num)
    then show ?thesis using clamp_plus_overflow [OF b0 b100] by simp
  qed
  then show ?thesis by (simp add: emaScore_def assms(1) one B)
qed

lemma emaScores_length: "length (emaScores config prev rs) = length rs"
  by (induction rs arbitrary: prev) (auto simp: Let_def)

lemma emaScores_Nil_iff: "emaScores config prev rs = [] \<longleftrightarrow> rs = []"
  by (cases rs) (simp_all add: Let_def)

lemma emaScores_snoc:
  "emaScores config prev (rs @ [r]) =
     emaScores config prev rs
       @ [emaScore r (if rs = [] then prev else Some (last (emaScores config prev rs))) config]"
  by (induction rs arbitrary: prev) (auto simp: Let_def emaScores_Nil_iff)

lemma ema_recurrence_append:
  "t < length rs \<Longrightarrow> ema_recurrence \<alpha> (rs @ [r]) t = ema_recurrence \<alpha> rs t"
  by (induction t) (auto simp: nth_append)

lemma ema_recurrence_range: "0 \<le> ema_recurrence \<alpha> rs t \<and> ema_recurrence \<alpha> rs t \<le> 100"
  by (cases t) simp_all

lemma emaScores_recurrence:
  assumes "emaAlpha config = Num \<alpha>" and "0 \<le> \<alpha>" and "\<alpha> \<le> 1"
  shows "emaScores config None (map Num rs)
    = map (\<lambda>t. Num (ema_recurrence \<alpha> rs t)) [0..<length rs]"
proof (induction rs rule: rev_induct)
  case Nil
  show ?case by simp
next
  case (snoc r rs)
  have IH: "emaScores config None (map Num rs)
      = map (\<lambda>t. Num (ema_recurrence \<alpha> rs t)) [0..<length rs]"
    by (rule snoc.IH)
  have pre: "map (\<lambda>t. Num (ema_recurrence \<alpha> (rs @ [r]) t)) [0..<length rs]
      = map (\<lambda>t. Num (ema_recurrence \<alpha> rs t)) [0..<length rs]"
    by (simp add: ema_recurrence_append)
  show ?case
  proof (cases rs rule: rev_cases)
    case Nil
    then show ?thesis by (simp add: emaScore_def clamp_Num)
  next
    case (snoc rs' r')
    have len: "length rs = Suc (length rs')" using snoc by simp
    have lastS: "last (emaScores config None (map Num rs)) = Num (ema_recurrence \<alpha> rs (length rs'))"
      unfolding IH using len by (simp add: last_map)
    have ne: "map Num rs \<noteq> []" using snoc by simp
    have step: "ema_recurrence \<alpha> (rs @ [r]) (length rs)
        = max 0 (min 100 (\<alpha> * r + (1 - \<alpha>) * ema_recurrence \<alpha> rs (length rs')))"
      unfolding len by (simp add: nth_append len ema_recurrence_append)
    have em: "emaScore (Num r) (Some (Num (ema_recurrence \<alpha> rs (length rs')))) config
        = Num (ema_recurrence \<alpha> (rs @ [r]) (length rs))"
      unfolding step using ema_recurrence_range [of \<alpha> rs "length rs'"]
      by (intro emaScore_Num assms) simp_all
    have "emaScores config None (map Num (rs @ [r]))
        = emaScores config None (map Num rs)
          @ [emaScore (Num r) (Some (Num (ema_recurrence \<alpha> rs (length rs')))) config]"
      using emaScores_snoc [of config None "map Num rs" "Num r"] ne lastS by simp
    also have "\<dots> = map (\<lambda>t. Num (ema_recurrence \<alpha> rs t)) [0..<length rs]
        @ [Num (ema_recurrence \<alpha> (rs @ [r]) (length rs))]"
      by (simp only: IH em)
    also have "\<dots> = map (\<lambda>t. Num (ema_recurrence \<alpha> (rs @ [r]) t)) [0..<length (rs @ [r])]"
      using pre by simp
    finally show ?thesis .
  qed
qed

text \<open>The report page smooths the raw scores of its days in this way.\<close>

lemma days_from_smoothed:
  "map smoothedScore (fst (days_from unicodeLower toLocalDateKey es keys prev tr))
     = emaScores DEFAULT_CONFIG prev
         (map rawScore (fst (days_from unicodeLower toLocalDateKey es keys prev tr)))"
  by (induction keys arbitrary: prev tr) (simp_all add: Let_def case_prod_beta)

lemma days_smoothed:
  "map smoothedScore (fst (days unicodeLower toLocalDateKey keys es))
     = emaScores DEFAULT_CONFIG None (map rawScore (fst (days unicodeLower toLocalDateKey keys es)))"
  by (simp add: days_def days_from_smoothed)

lemma two_days:
  "emaScores DEFAULT_CONFIG None [Num 80, Num 40] = [Num 80, Num (3 / 10 * 40 + 7 / 10 * 80)]"
proof -
  have a: "emaAlpha DEFAULT_CONFIG = Num (3 / 10)" by (simp add: DEFAULT_CONFIG_def)
  have "emaScore (Num 40) (Some (Num 80)) DEFAULT_CONFIG
      = Num (max 0 (min 100 (3 / 10 * 40 + (1 - 3 / 10) * 80)))"
    by (intro emaScore_Num a) simp_all
  then show ?thesis by (simp add: Let_def emaScore_def clamp_Num)
qed

text \<open>
  C4. For every sequence of finite raw scores and every configuration with \<open>emaAlpha\<close> in
  \<open>[0, 1]\<close>, calling \<open>emaScore\<close> once per day in order, the first call with no previous
  value, gives the sequence of the recurrence \<open>S\<^sub>t = clamp (\<alpha> r\<^sub>t + (1 - \<alpha>) S\<^sub>t\<^sub>-\<^sub>1)\<close>
  seeded with \<open>clamp r\<^sub>0\<close>; with such an \<open>\<alpha>\<close> and a clamped history a product that
  leaves the range is clamped to the value the recurrence gives. For the raw scores \<open>80\<close> then \<open>40\<close> and \<open>\<alpha> = 0.3\<close> the smoothed
  scores are \<open>80\<close> then \<open>0.3 * 40 + 0.7 * 80 = 68\<close>.
\<close>

theorem emaScores_replay:
  assumes "emaAlpha config = Num \<alpha>" and "0 \<le> \<alpha>" and "\<alpha> \<le> 1"
  shows "emaScores config None (map Num rs)
           = map (\<lambda>t. Num (ema_recurrence \<alpha> rs t)) [0..<length rs]
     \<and> emaScores DEFAULT_CONFIG None [Num 80, Num 40] = [Num 80, Num (3 / 10 * 40 + 7 / 10 * 80)]
     \<and> emaScores DEFAULT_CONFIG None [Num 80, Num 40] = [Num 80, Num 68]"
proof (intro conjI)
  show "emaScores config None (map Num rs)
           = map (\<lambda>t. Num (ema_recurrence \<alpha> rs t)) [0..<length rs]"
    by (rule emaScores_recurrence [OF assms])
  show "emaScores DEFAULT_CONFIG None [Num 80, Num 40] = [Num 80, Num (3 / 10 * 40 + 7 / 10 * 80)]"
    by (rule two_days)
  show "emaScores DEFAULT_CONFIG None [Num 80, Num 40] = [Num 80, Num 68]"
    unfolding two_days by simp
qed

theorem emaScores_replay_witness:
  "emaAlpha DEFAULT_CONFIG = Num (3 / 10) \<and> (0 :: real) \<le> 3 / 10 \<and> (3 / 10 :: real) \<le> 1
   \<and> emaScores DEFAULT_CONFIG None (map Num [80, 40])
       = map (\<lambda>t. Num (ema_recurrence (3 / 10) [80, 40] t)) [0..<length [80, 40 :: real]]
   \<and> map (\<lambda>t. Num (ema_recurrence (3 / 10) [80, 40] t)) [0..<length [80, 40 :: real]]
       = [Num 80, Num 68]"
proof -
  have a: "emaAlpha DEFAULT_CONFIG = Num (3 / 10)" by (simp add: DEFAULT_CONFIG_def)
  have b: "(0 :: real) \<le> 3 / 10" "(3 / 10 :: real) \<le> 1" by simp_all
  have d: "map (\<lambda>t. Num (ema_recurrence (3 / 10) [80, 40] t)) [0..<length [80, 40 :: real]]
       = [Num 80, Num 68]"
    by (simp add: numeral_2_eq_2)
  from emaScores_replay [OF a b] a b d show ?thesis by blast
qed

subsection \<open>Classifier: totality\<close>

text \<open>
  C3. For every string (any sequence of code units, of any length, whatever the host's
  case tables do outside ASCII) the classifier returns a category of the enumeration and
  a finite value in \<open>[-5, 5]\<close>, hence in \<open>[-5, 10]\<close>; for the empty string it returns
  \<open>(Other, 0)\<close>.
\<close>

theorem scoreEntryLocal_total:
  "fst (scoreEntryLocal unicodeLower text)
     \<in> set [Physical, Social, Focus, EmotionRegulation, Avoidance, Impulse, Sleep, Other]
   \<and> (\<exists>v. snd (scoreEntryLocal unicodeLower text) = Num v \<and> - 5 \<le> v \<and> v \<le> 5 \<and> v \<le> 10)
   \<and> scoreEntryLocal unicodeLower [] = (Other, Num 0)"
proof (intro conjI)
  show "fst (scoreEntryLocal unicodeLower text)
     \<in> set [Physical, Social, Focus, EmotionRegulation, Avoidance, Impulse, Sleep, Other]"
    by (cases "fst (scoreEntryLocal unicodeLower text)") simp_all
  show "\<exists>v. snd (scoreEntryLocal unicodeLower text) = Num v \<and> - 5 \<le> v \<and> v \<le> 5 \<and> v \<le> 10"
    by (simp add: scoreEntryLocal_def Let_def)
  show "scoreEntryLocal unicodeLower [] = (Other, Num 0)"
    by (simp add: scoreEntryLocal_def hit_def js_def toLowerCase_def trim_def)
qed

subsection \<open>Classifier: the first matching rule\<close>

text \<open>
  C6. The classifier returns the result of the first rule, in the fixed order of the
  table, that has a keyword in the trimmed and lowercased text, and \<open>(Other, 0)\<close> when
  no rule has one; being a function of the text, it is deterministic. The text
  \<open>Went for a 20 min walk\<close> is normalized to \<open>went for a 20 min walk\<close>, which includes
  the keyword \<open>walk\<close> of the first rule, and is classified \<open>(Physical, 4)\<close>.
\<close>

theorem scoreEntryLocal_first_match:
  "scoreEntryLocal unicodeLower text
     = first_matching_rule (toLowerCase unicodeLower (trim text)) keyword_rules
   \<and> toLowerCase unicodeLower (trim (js ''Went for a 20 min walk'')) = js ''went for a 20 min walk''
   \<and> includes_str (js ''went for a 20 min walk'') (js ''walk'')
   \<and> scoreEntryLocal unicodeLower (js ''Went for a 20 min walk'') = (Physical, Num 4)"
proof (intro conjI)
  show "scoreEntryLocal unicodeLower text
     = first_matching_rule (toLowerCase unicodeLower (trim text)) keyword_rules"
    by (simp add: scoreEntryLocal_def keyword_rules_def hit_def Let_def)
  show "toLowerCase unicodeLower (trim (js ''Went for a 20 min walk'')) = js ''went for a 20 min walk''"
    by (simp add: js_def toLowerCase_def trim_def isWhiteSpace_def asciiLower_def)
  show "includes_str (js ''went for a 20 min walk'') (js ''walk'')"
    by (simp add: js_def)
  show "scoreEntryLocal unicodeLower (js ''Went for a 20 min walk'') = (Physical, Num 4)"
    by (simp add: scoreEntryLocal_def hit_def js_def toLowerCase_def trim_def isWhiteSpace_def
        asciiLower_def)
qed

subsection \<open>Entries that carry a value\<close>

lemma toScoredEntry_trace: "snd (toScoredEntry unicodeLower e tr) = tr @ [entry_text e]"
  by (simp add: toScoredEntry_def scoreEntryLocal_call_def)

lemma toScoredEntry_fst:
  "fst (toScoredEntry unicodeLower e tr) = fst (toScoredEntry unicodeLower e [])"
  by (simp add: toScoredEntry_def scoreEntryLocal_call_def)

lemma map_toScoredEntry_eq:
  "map_toScoredEntry unicodeLower es tr
     = (map (\<lambda>e. fst (toScoredEntry unicodeLower e [])) es, tr @ map entry_text es)"
proof (induction es arbitrary: tr)
  case Nil
  show ?case by simp
next
  case (Cons e es)
  show ?case
    using toScoredEntry_fst [of unicodeLower e tr] toScoredEntry_trace [of unicodeLower e tr]
    by (simp add: Cons.IH case_prod_beta)
qed

lemma days_from_eq:
  "map entries (fst (days_from unicodeLower toLocalDateKey es keys prev tr))
     = map (\<lambda>k. map (\<lambda>e. fst (toScoredEntry unicodeLower e []))
                (filter (\<lambda>e. toLocalDateKey (createdAt e) = k) es)) keys
   \<and> snd (days_from unicodeLower toLocalDateKey es keys prev tr)
     = tr @ concat (map (\<lambda>k. map entry_text (filter (\<lambda>e. toLocalDateKey (createdAt e) = k) es)) keys)"
  by (induction keys arbitrary: prev tr) (simp_all add: Let_def case_prod_beta map_toScoredEntry_eq)

text \<open>
  C9, as stated, fails. The callback calls \<open>scoreEntryLocal(e.text)\<close> before it looks at
  \<open>e.value\<close>: for an entry with the stored value \<open>42\<close> and no category the classifier is
  called on the text (the trace holds it) and its category \<open>Physical\<close> is the category of
  the scored entry. (The text is ASCII, so the case tables of the host play no part.)
\<close>

theorem classifier_called_on_valued_entry:
  "toScoredEntry id
     \<lparr>entry_id = js ''1'', entry_text = js ''walk'', createdAt = js ''2024-01-01T10:00:00.000Z'',
      entry_category = None, entry_value = Some (Num 42)\<rparr> []
   = (\<lparr>scored_id = js ''1'', scored_text = js ''walk'',
       scored_createdAt = js ''2024-01-01T10:00:00.000Z'',
       scored_category = Physical, scored_value = Num 42\<rparr>, [js ''walk''])"
  by (simp add: toScoredEntry_def scoreEntryLocal_call_def scoreEntryLocal_def hit_def js_def
      toLowerCase_def trim_def isWhiteSpace_def asciiLower_def)

text \<open>
  C9, amended. For every entry that carries a numeric value, the scored entry has that
  value as it is stored, whatever its size (nothing clamps it); the classifier is still
  called once on the text of every entry, in order, on both pages, and its category is
  the category of the scored entry when the entry has none.
\<close>

theorem stored_value_verbatim:
  assumes "entry_value e = Some v"
  shows "scored_value (fst (toScoredEntry unicodeLower e tr)) = v
    \<and> snd (toScoredEntry unicodeLower e tr) = tr @ [entry_text e]
    \<and> scored_category (fst (toScoredEntry unicodeLower e tr))
        = (case entry_category e of Some c \<Rightarrow> c
           | None \<Rightarrow> fst (scoreEntryLocal unicodeLower (entry_text e)))
    \<and> fst (scoredToday unicodeLower today tr)
        = map (\<lambda>e. fst (toScoredEntry unicodeLower e [])) today
    \<and> snd (scoredToday unicodeLower today tr) = tr @ map entry_text today
    \<and> map entries (fst (days unicodeLower toLocalDateKey keys es))
        = map (\<lambda>k. map (\<lambda>e. fst (toScoredEntry unicodeLower e []))
                   (filter (\<lambda>e. toLocalDateKey (createdAt e) = k) es)) keys
    \<and> snd (days unicodeLower toLocalDateKey keys es)
        = concat (map (\<lambda>k. map entry_text (filter (\<lambda>e. toLocalDateKey (createdAt e) = k) es)) keys)"
  using assms days_from_eq [of unicodeLower toLocalDateKey es keys None "[]"]
  by (simp add: toScoredEntry_def scoreEntryLocal_call_def scoredToday_def map_toScoredEntry_eq
      days_def)

theorem stored_value_verbatim_witness:
  "entry_value \<lparr>entry_id = js ''1'', entry_text = js ''walk'', createdAt = js ''c'',
      entry_category = Some Other, entry_value = Some (Num 42)\<rparr> = Some (Num 42)
   \<and> scored_value (fst (toScoredEntry id
        \<lparr>entry_id = js ''1'', entry_text = js ''walk'', createdAt = js ''c'',
         entry_category = Some Other, entry_value = Some (Num 42)\<rparr> [])) = Num 42
   \<and> snd (toScoredEntry id
        \<lparr>entry_id = js ''1'', entry_text = js ''walk'', createdAt = js ''c'',
         entry_category = Some Other, entry_value = Some (Num 42)\<rparr> []) = [js ''walk'']"
  using stored_value_verbatim [of "\<lparr>entry_id = js ''1'', entry_text = js ''walk'',
      createdAt = js ''c'', entry_category = Some Other, entry_value = Some (Num 42)\<rparr>"
      "Num 42" id "[]"]
  by simp

subsection \<open>Rounding to double precision\<close>

text \<open>
  \<open>ilog2\<close> is the binary exponent of its argument, and \<open>binary64 x\<close> is a number
  \<open>m * 2\<^sup>e\<close> with \<open>|m| \<le> 2\<^sup>5\<^sup>3\<close> that is at least as close to \<open>x\<close> as every other
  multiple of \<open>2\<^sup>e\<close>, where \<open>e\<close> is the exponent of the last place of \<open>x\<close>.
\<close>

lemma pow2_powi: "pow2 e = 2 powi e"
  by (simp add: pow2_def power_int_def field_simps)

lemma pow2_pos: "0 < pow2 e"
  by (simp add: pow2_powi)

lemma bitlen_powi:
  assumes "0 < a"
  shows "2 powi (bitlen a - 1) \<le> (of_int a :: rat) \<and> (of_int a :: rat) < 2 powi bitlen a"
proof -
  from bitlen_bounds [OF assms]
  have lo: "2 ^ nat (bitlen a - 1) \<le> a" and hi: "a < 2 ^ nat (bitlen a)" by simp_all
  have ge: "1 \<le> bitlen a"
  proof (rule ccontr)
    assume "\<not> 1 \<le> bitlen a"
    then have "nat (bitlen a) = 0" by simp
    with hi assms show False by simp
  qed
  have "(of_int (2 ^ nat (bitlen a - 1)) :: rat) \<le> of_int a" using lo by (simp only: of_int_le_iff)
  moreover have "(of_int a :: rat) < of_int (2 ^ nat (bitlen a))" using hi by (simp only: of_int_less_iff)
  ultimately show ?thesis using ge by (simp add: power_int_def)
qed

lemma ilog2_bounds:
  assumes "0 < x"
  shows "pow2 (ilog2 x) \<le> x \<and> x < pow2 (ilog2 x + 1)"
proof -
  obtain a b where q: "quotient_of x = (a, b)" by (cases "quotient_of x")
  have b: "0 < b" using q quotient_of_denom_pos by blast
  have x: "x = of_int a / of_int b" using q by (rule quotient_of_div)
  have a: "0 < a" using assms b x by (simp add: zero_less_divide_iff)
  define la lb where "la = bitlen a" and "lb = bitlen b"
  have la: "2 powi (la - 1) \<le> (of_int a :: rat)" "(of_int a :: rat) < 2 powi la"
    unfolding la_def using bitlen_powi [OF a] by simp_all
  have lb: "2 powi (lb - 1) \<le> (of_int b :: rat)" "(of_int b :: rat) < 2 powi lb"
    unfolding lb_def using bitlen_powi [OF b] by simp_all
  have pb: "(0 :: rat) < 2 powi (lb - 1)" "(0 :: rat) < 2 powi lb" by simp_all
  have "x < 2 powi la / 2 powi (lb - 1)"
    unfolding x using la(2) lb(1) a b pb
    by (intro frac_less) simp_all
  also have "\<dots> = 2 powi (la - lb + 1)"
    by (simp add: power_int_diff power_int_add field_simps)
  finally have up: "x < 2 powi (la - lb + 1)" .
  have "2 powi (la - 1) / 2 powi lb < x"
    unfolding x using la(1) lb(2) a b pb
    by (intro frac_less2) simp_all
  moreover have "2 powi (la - 1) / 2 powi lb = (2 :: rat) powi (la - lb - 1)"
    by (simp add: power_int_diff power_int_add field_simps)
  ultimately have dn: "2 powi (la - lb - 1) \<le> x" by simp
  show ?thesis
    using up dn q by (auto simp: ilog2_def Let_def pow2_powi la_def lb_def not_le)
qed

lemma round_ties_even_cases:
  "round_ties_even y = \<lfloor>y\<rfloor> \<or> round_ties_even y = \<lfloor>y\<rfloor> + 1 \<and> of_int \<lfloor>y\<rfloor> < y"
  by (auto simp: round_ties_even_def Let_def)

lemma round_ties_even_nearest:
  "\<bar>of_int (round_ties_even y) - y\<bar> \<le> \<bar>of_int k - y\<bar>"
proof -
  define f where "f = \<lfloor>y\<rfloor>"
  define d where "d = y - of_int f"
  have d: "0 \<le> d" "d < 1" unfolding d_def f_def by linarith+
  have y: "y = of_int f + d" by (simp add: d_def)
  have rt: "round_ties_even y
      = (if d < 1 / 2 then f else if 1 / 2 < d then f + 1 else if even f then f else f + 1)"
    by (simp add: round_ties_even_def Let_def f_def d_def)
  have df: "of_int f - y = - d" "of_int (f + 1) - y = 1 - d" by (simp_all add: d_def)
  have "round_ties_even y = f \<and> d \<le> 1 / 2 \<or> round_ties_even y = f + 1 \<and> 1 / 2 \<le> d"
    unfolding rt by auto
  then have r: "\<bar>of_int (round_ties_even y) - y\<bar> = min d (1 - d)"
  proof
    assume "round_ties_even y = f \<and> d \<le> 1 / 2"
    then show ?thesis using d df(1) by (simp add: min_def)
  next
    assume "round_ties_even y = f + 1 \<and> 1 / 2 \<le> d"
    then show ?thesis using d df(2) by (simp add: min_def)
  qed
  show ?thesis
  proof (cases "k \<le> f")
    case True
    then have kf: "(of_int k :: rat) \<le> of_int f" by simp
    have "min d (1 - d) \<le> d" by simp
    also have "\<dots> \<le> of_int f - of_int k + d" using kf by simp
    also have "\<dots> = \<bar>of_int k - y\<bar>" using d kf unfolding y by linarith
    finally show ?thesis unfolding r .
  next
    case False
    then have "f + 1 \<le> k" by simp
    then have "(of_int (f + 1) :: rat) \<le> of_int k" by (simp only: of_int_le_iff)
    then have kf: "(of_int f :: rat) + 1 \<le> of_int k" by simp
    have "min d (1 - d) \<le> 1 - d" by simp
    also have "\<dots> \<le> of_int k - of_int f - d" using kf by simp
    also have "\<dots> = \<bar>of_int k - y\<bar>" using d kf unfolding y by linarith
    finally show ?thesis unfolding r .
  qed
qed

lemma binary64_nearest:
  assumes "x \<noteq> 0"
  defines "e \<equiv> max (ilog2 \<bar>x\<bar> - 52) (- 1074)"
  shows "\<exists>m. binary64 x = of_int m * pow2 e \<and> \<bar>m\<bar> \<le> 2 ^ 53
           \<and> (\<forall>k. \<bar>binary64 x - x\<bar> \<le> \<bar>of_int k * pow2 e - x\<bar>)"
proof -
  define p where "p = pow2 e"
  define m where "m = round_ties_even (x / p)"
  have p: "0 < p" unfolding p_def by (rule pow2_pos)
  have b: "binary64 x = of_int m * p"
    using assms(1) by (simp add: binary64_def Let_def m_def p_def e_def)
  have scale_abs: "\<bar>of_int k * p - x\<bar> = p * \<bar>of_int k - x / p\<bar>" for k
  proof -
    have "of_int k * p - x = p * (of_int k - x / p)" using p by (simp add: field_simps)
    then show ?thesis using p by (simp only: abs_mult abs_of_pos)
  qed
  have near: "\<bar>binary64 x - x\<bar> \<le> \<bar>of_int k * p - x\<bar>" for k
  proof -
    have "\<bar>of_int m - x / p\<bar> \<le> \<bar>of_int k - x / p\<bar>"
      unfolding m_def by (rule round_ties_even_nearest)
    then have "p * \<bar>of_int m - x / p\<bar> \<le> p * \<bar>of_int k - x / p\<bar>"
      using p by (simp only: mult_le_cancel_left_pos)
    then show ?thesis unfolding b scale_abs .
  qed
  have ax: "0 < \<bar>x\<bar>" using assms(1) by simp
  have x1: "\<bar>x\<bar> < 2 powi (ilog2 \<bar>x\<bar> + 1)"
    using ilog2_bounds [OF ax] by (simp add: pow2_powi)
  have x2: "(2 :: rat) powi (ilog2 \<bar>x\<bar> - 52) \<le> p"
    unfolding p_def pow2_powi e_def by (intro power_int_increasing) simp_all
  have x3: "(2 :: rat) powi (ilog2 \<bar>x\<bar> + 1) = 2 ^ 53 * 2 powi (ilog2 \<bar>x\<bar> - 52)"
    by (simp add: power_int_add power_int_diff)
  have "(2 :: rat) ^ 53 * 2 powi (ilog2 \<bar>x\<bar> - 52) \<le> 2 ^ 53 * p"
    using x2 by (intro mult_left_mono) simp_all
  with x1 have X: "\<bar>x\<bar> < 2 ^ 53 * p" unfolding x3 by (rule less_le_trans)
  have "x < 2 ^ 53 * p" and "- (2 ^ 53 * p) < x" using X by linarith+
  then have q2: "- (2 ^ 53) < x / p" "x / p < 2 ^ 53"
    using p by (simp_all add: pos_divide_less_eq pos_less_divide_eq)
  have fl1: "- (2 ^ 53) \<le> \<lfloor>x / p\<rfloor>"
    using q2(1) by (simp add: le_floor_iff)
  have fl2: "\<lfloor>x / p\<rfloor> < 2 ^ 53"
    using q2(2) by (simp add: floor_less_iff)
  have mb: "\<bar>m\<bar> \<le> 2 ^ 53"
    using round_ties_even_cases [of "x / p"] fl1 fl2 unfolding m_def by linarith
  show ?thesis using b near mb unfolding p_def by blast
qed

subsection \<open>Day aggregator: the sums and the order of the values\<close>

text \<open>
  C10, as stated, fails once the additions round. The doubles nearest to \<open>0.1\<close>, \<open>0.2\<close>
  and \<open>0.3\<close> add up, from the left, to \<open>0.6000000000000001\<close>; in the opposite order to
  \<open>0.6\<close>. So \<open>positiveSum\<close> changes under a permutation of the values, and
  \<open>positiveSum - negativeSum\<close> is not the sum of the values.
\<close>

theorem rounded_sum_depends_on_order:
  "binary64 (1 / 10) = 3602879701896397 / 2 ^ 55
   \<and> binary64 (2 / 10) = 3602879701896397 / 2 ^ 54
   \<and> binary64 (3 / 10) = 5404319552844595 / 2 ^ 54
   \<and> mset [binary64 (1 / 10), binary64 (2 / 10), binary64 (3 / 10)]
     = mset [binary64 (3 / 10), binary64 (2 / 10), binary64 (1 / 10)]
   \<and> positiveSum_binary64 [binary64 (1 / 10), binary64 (2 / 10), binary64 (3 / 10)]
       = 5404319552844596 / 2 ^ 53
   \<and> positiveSum_binary64 [binary64 (3 / 10), binary64 (2 / 10), binary64 (1 / 10)]
       = 5404319552844595 / 2 ^ 53
   \<and> negativeSum_binary64 [binary64 (1 / 10), binary64 (2 / 10), binary64 (3 / 10)] = 0
   \<and> positiveSum_binary64 [binary64 (1 / 10), binary64 (2 / 10), binary64 (3 / 10)]
         - negativeSum_binary64 [binary64 (1 / 10), binary64 (2 / 10), binary64 (3 / 10)]
       \<noteq> binary64 (1 / 10) + binary64 (2 / 10) + binary64 (3 / 10)"
  by code_simp

lemma pow2_nonpos: "e \<le> 0 \<Longrightarrow> pow2 e = 1 / 2 ^ nat (- e)"
  by (cases "e = 0") (simp_all add: pow2_def)

lemma round_ties_even_of_int: "round_ties_even (of_int n) = n"
  by (simp add: round_ties_even_def)

lemma ilog2_of_int_le:
  assumes "0 < k" and "k < 2 ^ 53"
  shows "ilog2 (of_int k) \<le> 52"
proof -
  have "bitlen k \<le> 53" using assms(2) by (simp add: bitlen_le_iff_power)
  moreover have "bitlen 1 = 1" by (simp add: compute_bitlen)
  ultimately show ?thesis by (simp add: ilog2_def Let_def)
qed

lemma binary64_of_int:
  assumes "\<bar>k\<bar> < 2 ^ 53"
  shows "binary64 (of_int k) = of_int k"
proof (cases "k = 0")
  case True
  then show ?thesis by (simp add: binary64_def)
next
  case False
  define e where "e = max (ilog2 \<bar>of_int k\<bar> - 52) (- 1074)"
  have "\<bar>of_int k :: rat\<bar> = of_int \<bar>k\<bar>" by simp
  moreover have "ilog2 (of_int \<bar>k\<bar>) \<le> 52"
    using False assms by (intro ilog2_of_int_le) simp_all
  ultimately have e: "e \<le> 0" by (simp add: e_def)
  define j where "j = nat (- e)"
  have p: "pow2 e = 1 / 2 ^ j" unfolding j_def by (rule pow2_nonpos [OF e])
  have "of_int k / pow2 e = (of_int (k * 2 ^ j) :: rat)" by (simp add: p)
  then have "round_ties_even (of_int k / pow2 e) = k * 2 ^ j"
    by (simp only: round_ties_even_of_int)
  then have "of_int (round_ties_even (of_int k / pow2 e)) * pow2 e = (of_int k :: rat)"
    by (simp add: p)
  then show ?thesis using False by (simp add: binary64_def Let_def e_def)
qed

lemma sum_list_abs_nonneg: "0 \<le> (\<Sum>k\<leftarrow>ks. \<bar>k :: int\<bar>)"
  by (induction ks) simp_all

lemma foldl_positive_binary64:
  "0 \<le> a \<Longrightarrow> a + (\<Sum>k\<leftarrow>ks. \<bar>k\<bar>) < 2 ^ 53 \<Longrightarrow>
   foldl (\<lambda>acc v. plus_binary64 acc (max 0 v)) (of_int a) (map of_int ks)
     = of_int (a + (\<Sum>k\<leftarrow>ks. max 0 k))"
proof (induction ks arbitrary: a)
  case Nil
  then show ?case by simp
next
  case (Cons k ks)
  have m: "max 0 (of_int k :: rat) = of_int (max 0 k)" by (simp add: max_def)
  have s: "(\<Sum>k\<leftarrow>k # ks. \<bar>k\<bar>) = \<bar>k\<bar> + (\<Sum>k\<leftarrow>ks. \<bar>k\<bar>)" by simp
  have nn: "0 \<le> (\<Sum>k\<leftarrow>ks. \<bar>k\<bar>)" by (rule sum_list_abs_nonneg)
  have mk: "0 \<le> max 0 k" "max 0 k \<le> \<bar>k\<bar>" by simp_all
  have b: "\<bar>a + max 0 k\<bar> < 2 ^ 53" using Cons.prems nn mk unfolding s by linarith
  have "plus_binary64 (of_int a) (max 0 (of_int k)) = of_int (a + max 0 k)"
    unfolding plus_binary64_def m using binary64_of_int [OF b] by simp
  moreover have "0 \<le> a + max 0 k" using Cons.prems mk by linarith
  moreover have "a + max 0 k + (\<Sum>k\<leftarrow>ks. \<bar>k\<bar>) < 2 ^ 53"
    using Cons.prems mk unfolding s by linarith
  ultimately show ?case using Cons.IH [of "a + max 0 k"] by (simp add: add.assoc)
qed

lemma foldl_negative_binary64:
  "0 \<le> a \<Longrightarrow> a + (\<Sum>k\<leftarrow>ks. \<bar>k\<bar>) < 2 ^ 53 \<Longrightarrow>
   foldl (\<lambda>acc v. plus_binary64 acc (max 0 (- v))) (of_int a) (map of_int ks)
     = of_int (a + (\<Sum>k\<leftarrow>ks. max 0 (- k)))"
proof (induction ks arbitrary: a)
  case Nil
  then show ?case by simp
next
  case (Cons k ks)
  have m: "max 0 (- (of_int k :: rat)) = of_int (max 0 (- k))" by (simp add: max_def)
  have s: "(\<Sum>k\<leftarrow>k # ks. \<bar>k\<bar>) = \<bar>k\<bar> + (\<Sum>k\<leftarrow>ks. \<bar>k\<bar>)" by simp
  have nn: "0 \<le> (\<Sum>k\<leftarrow>ks. \<bar>k\<bar>)" by (rule sum_list_abs_nonneg)
  have mk: "0 \<le> max 0 (- k)" "max 0 (- k) \<le> \<bar>k\<bar>" by simp_all
  have b: "\<bar>a + max 0 (- k)\<bar> < 2 ^ 53" using Cons.prems nn mk unfolding s by linarith
  have "plus_binary64 (of_int a) (max 0 (- of_int k)) = of_int (a + max 0 (- k))"
    unfolding plus_binary64_def m using binary64_of_int [OF b] by simp
  moreover have "0 \<le> a + max 0 (- k)" using Cons.prems mk by linarith
  moreover have "a + max 0 (- k) + (\<Sum>k\<leftarrow>ks. \<bar>k\<bar>) < 2 ^ 53"
    using Cons.prems mk unfolding s by linarith
  ultimately show ?case using Cons.IH [of "a + max 0 (- k)"] by (simp add: add.assoc)
qed

lemma sum_list_pos_neg_int: "(\<Sum>k\<leftarrow>ks. max 0 k) - (\<Sum>k\<leftarrow>ks. max 0 (- k)) = sum_list (ks :: int list)"
  by (induction ks) (auto simp: max_def)

lemma sum_list_pos_neg_real: "(\<Sum>v\<leftarrow>vs. max 0 v) - (\<Sum>v\<leftarrow>vs. max 0 (- v)) = sum_list (vs :: real list)"
  by (induction vs) (auto simp: max_def)

lemma sum_list_map_mset:
  fixes f :: "'a \<Rightarrow> 'b :: comm_monoid_add"
  shows "mset xs = mset ys \<Longrightarrow> (\<Sum>x\<leftarrow>xs. f x) = (\<Sum>y\<leftarrow>ys. f y)"
  by (metis mset_map sum_mset_sum_list)

lemma scoreDayFromValues_overflow:
  "scoreDayFromValues (map Num vs) config =
     \<lparr>positiveSum = overflow (\<Sum>v\<leftarrow>vs. max 0 v),
      negativeSum = overflow (\<Sum>v\<leftarrow>vs. max 0 (- v)),
      rawScore = clamp (times_num (Num 100) (sigmoid (divide_num
           (minus_num (overflow (\<Sum>v\<leftarrow>vs. max 0 v))
              (times_num (lambda config) (overflow (\<Sum>v\<leftarrow>vs. max 0 (- v)))))
           (scale config))))\<rparr>"
  by (rule DayResult.equality)
    (simp_all add: rawScore_unfold positiveSum_overflow negativeSum_overflow)

text \<open>
  C10, amended. Where no addition rounds or overflows, \<open>positiveSum - negativeSum\<close> is the
  sum of the values, and \<open>positiveSum\<close>, \<open>negativeSum\<close> and \<open>rawScore\<close> do not change
  under a permutation of the values: in arithmetic without rounding for all finite values
  (each sum is the exact one, or the infinity it overflows to, whatever the order), and
  in double arithmetic for integer values whose magnitudes sum to less than \<open>2\<^sup>5\<^sup>3\<close> (the
  values of the classifier are such integers), where the two sums are the exact ones.
\<close>

theorem sums_without_rounding:
  "(\<exists>p n. positiveSum (scoreDayFromValues (map Num vs) config) = overflow p
          \<and> negativeSum (scoreDayFromValues (map Num vs) config) = overflow n
          \<and> p - n = sum_list vs)
   \<and> ((\<Sum>v\<leftarrow>vs. \<bar>v\<bar>) < overflow_limit \<longrightarrow>
        (\<exists>p n. positiveSum (scoreDayFromValues (map Num vs) config) = Num p
          \<and> negativeSum (scoreDayFromValues (map Num vs) config) = Num n
          \<and> p - n = sum_list vs))
   \<and> (mset vs = mset ws \<longrightarrow>
        scoreDayFromValues (map Num vs) config = scoreDayFromValues (map Num ws) config)
   \<and> ((\<Sum>k\<leftarrow>ks. \<bar>k\<bar>) < 2 ^ 53 \<longrightarrow>
        positiveSum_binary64 (map of_int ks) = of_int (\<Sum>k\<leftarrow>ks. max 0 k)
        \<and> negativeSum_binary64 (map of_int ks) = of_int (\<Sum>k\<leftarrow>ks. max 0 (- k))
        \<and> positiveSum_binary64 (map of_int ks) - negativeSum_binary64 (map of_int ks)
            = of_int (sum_list ks))
   \<and> ((\<Sum>k\<leftarrow>ks. \<bar>k\<bar>) < 2 ^ 53 \<and> mset ks = mset ks' \<longrightarrow>
        positiveSum_binary64 (map of_int ks) = positiveSum_binary64 (map of_int ks')
        \<and> negativeSum_binary64 (map of_int ks) = negativeSum_binary64 (map of_int ks'))"
proof (intro conjI impI)
  show "\<exists>p n. positiveSum (scoreDayFromValues (map Num vs) config) = overflow p
          \<and> negativeSum (scoreDayFromValues (map Num vs) config) = overflow n
          \<and> p - n = sum_list vs"
    using positiveSum_overflow negativeSum_overflow sum_list_pos_neg_real by blast
next
  assume "(\<Sum>v\<leftarrow>vs. \<bar>v\<bar>) < overflow_limit"
  then show "\<exists>p n. positiveSum (scoreDayFromValues (map Num vs) config) = Num p
          \<and> negativeSum (scoreDayFromValues (map Num vs) config) = Num n
          \<and> p - n = sum_list vs"
    using sums_finite sum_list_pos_neg_real by blast
next
  assume "mset vs = mset ws"
  then have "(\<Sum>v\<leftarrow>vs. max 0 v) = (\<Sum>v\<leftarrow>ws. max 0 v)"
    and "(\<Sum>v\<leftarrow>vs. max 0 (- v)) = (\<Sum>v\<leftarrow>ws. max 0 (- v))"
    by (rule sum_list_map_mset)+
  then show "scoreDayFromValues (map Num vs) config = scoreDayFromValues (map Num ws) config"
    by (simp add: scoreDayFromValues_overflow)
next
  assume b: "(\<Sum>k\<leftarrow>ks. \<bar>k\<bar>) < 2 ^ 53"
  show p: "positiveSum_binary64 (map of_int ks) = of_int (\<Sum>k\<leftarrow>ks. max 0 k)"
    using foldl_positive_binary64 [of 0 ks] b by (simp add: positiveSum_binary64_def)
  show n: "negativeSum_binary64 (map of_int ks) = of_int (\<Sum>k\<leftarrow>ks. max 0 (- k))"
    using foldl_negative_binary64 [of 0 ks] b by (simp add: negativeSum_binary64_def)
  show "positiveSum_binary64 (map of_int ks) - negativeSum_binary64 (map of_int ks)
            = of_int (sum_list ks)"
    unfolding p n using sum_list_pos_neg_int [of ks] by (simp flip: of_int_diff)
next
  assume h: "(\<Sum>k\<leftarrow>ks. \<bar>k\<bar>) < 2 ^ 53 \<and> mset ks = mset ks'"
  then have m: "mset ks = mset ks'" by simp
  from h have bk: "(\<Sum>k\<leftarrow>ks. \<bar>k\<bar>) < 2 ^ 53" by simp
  then have bj: "(\<Sum>k\<leftarrow>ks'. \<bar>k\<bar>) < 2 ^ 53"
    using sum_list_map_mset [OF m, of abs] by simp
  have "positiveSum_binary64 (map of_int ks) = of_int (\<Sum>k\<leftarrow>ks. max 0 k)"
    using foldl_positive_binary64 [of 0 ks] bk by (simp add: positiveSum_binary64_def)
  moreover have "positiveSum_binary64 (map of_int ks') = of_int (\<Sum>k\<leftarrow>ks'. max 0 k)"
    using foldl_positive_binary64 [of 0 "ks'"] bj by (simp add: positiveSum_binary64_def)
  ultimately show "positiveSum_binary64 (map of_int ks) = positiveSum_binary64 (map of_int ks')"
    using sum_list_map_mset [OF m, of "max 0"] by simp
  have "negativeSum_binary64 (map of_int ks) = of_int (\<Sum>k\<leftarrow>ks. max 0 (- k))"
    using foldl_negative_binary64 [of 0 ks] bk by (simp add: negativeSum_binary64_def)
  moreover have "negativeSum_binary64 (map of_int ks') = of_int (\<Sum>k\<leftarrow>ks'. max 0 (- k))"
    using foldl_negative_binary64 [of 0 "ks'"] bj by (simp add: negativeSum_binary64_def)
  ultimately show "negativeSum_binary64 (map of_int ks) = negativeSum_binary64 (map of_int ks')"
    using sum_list_map_mset [OF m, of "\<lambda>k. max 0 (- k)"] by simp
qed

theorem sums_without_rounding_witness:
  "(\<Sum>v\<leftarrow>[4, 3, - 3 :: real]. \<bar>v\<bar>) < overflow_limit
   \<and> (\<exists>p n. positiveSum (scoreDayFromValues (map Num [4, 3, - 3]) DEFAULT_CONFIG) = Num p
          \<and> negativeSum (scoreDayFromValues (map Num [4, 3, - 3]) DEFAULT_CONFIG) = Num n
          \<and> p - n = sum_list [4, 3, - 3])
   \<and> mset [4, 3, - 3 :: real] = mset [- 3, 4, 3]
   \<and> scoreDayFromValues (map Num [4, 3, - 3]) DEFAULT_CONFIG
       = scoreDayFromValues (map Num [- 3, 4, 3]) DEFAULT_CONFIG
   \<and> (\<Sum>k\<leftarrow>[4, 3, - 3 :: int]. \<bar>k\<bar>) < 2 ^ 53
   \<and> mset [4, 3, - 3 :: int] = mset [- 3, 4, 3]
   \<and> positiveSum_binary64 (map of_int [4, 3, - 3]) = 7
   \<and> negativeSum_binary64 (map of_int [4, 3, - 3]) = 3
   \<and> positiveSum_binary64 (map of_int [4, 3, - 3]) = positiveSum_binary64 (map of_int [- 3, 4, 3])
   \<and> negativeSum_binary64 (map of_int [4, 3, - 3]) = negativeSum_binary64 (map of_int [- 3, 4, 3])"
proof -
  have f: "(\<Sum>v\<leftarrow>[4, 3, - 3 :: real]. \<bar>v\<bar>) < overflow_limit"
    using overflow_limit_gt_million by simp
  have m: "mset [4, 3, - 3 :: real] = mset [- 3, 4, 3]" by simp
  have mi: "mset [4, 3, - 3 :: int] = mset [- 3, 4, 3]" by simp
  have b: "(\<Sum>k\<leftarrow>[4, 3, - 3 :: int]. \<bar>k\<bar>) < 2 ^ 53" by simp
  have s: "(\<Sum>k\<leftarrow>[4, 3, - 3 :: int]. max 0 k) = 7" "(\<Sum>k\<leftarrow>[4, 3, - 3 :: int]. max 0 (- k)) = 3"
    by simp_all
  note t = sums_without_rounding
    [of "[4, 3, - 3]" DEFAULT_CONFIG "[- 3, 4, 3]" "[4, 3, - 3]" "[- 3, 4, 3]"]
  have t2: "\<exists>p n. positiveSum (scoreDayFromValues (map Num [4, 3, - 3]) DEFAULT_CONFIG) = Num p
          \<and> negativeSum (scoreDayFromValues (map Num [4, 3, - 3]) DEFAULT_CONFIG) = Num n
          \<and> p - n = sum_list [4, 3, - 3]"
    using t f by blast
  have t3: "scoreDayFromValues (map Num [4, 3, - 3]) DEFAULT_CONFIG
       = scoreDayFromValues (map Num [- 3, 4, 3]) DEFAULT_CONFIG"
    using t m by blast
  have t4: "positiveSum_binary64 (map of_int [4, 3, - 3]) = of_int (\<Sum>k\<leftarrow>[4, 3, - 3]. max 0 k)"
    "negativeSum_binary64 (map of_int [4, 3, - 3]) = of_int (\<Sum>k\<leftarrow>[4, 3, - 3]. max 0 (- k))"
    using t b by blast+
  have t5: "positiveSum_binary64 (map of_int [4, 3, - 3])
      = positiveSum_binary64 (map of_int [- 3, 4, 3])"
    "negativeSum_binary64 (map of_int [4, 3, - 3]) = negativeSum_binary64 (map of_int [- 3, 4, 3])"
    using t b mi by blast+
  show ?thesis using f m mi b t2 t3 t4 [unfolded s] t5 by simp
qed

end
